theory Spec2Isabelle
  imports
    Complex_Main
    "HOL-Library.Word"
    "HOL-Library.List_Lexorder"
    "HOL-Library.Product_Lexorder"
    "HOL-Library.Multiset"
begin

section \<open>JavaScript strings\<close>

text \<open>
  A JavaScript string is a sequence of UTF-16 code units. IndexedDB compares string keys
  code unit by code unit, which is the lexicographic order of \<open>HOL-Library.List_Lexorder\<close>
  over the unsigned order of 16-bit words. A regular expression without the \<open>u\<close> flag
  also works on code units.
\<close>

type_synonym code_unit = "16 word"
type_synonym js_string = "code_unit list"

text \<open>An ASCII literal of the source, as code units.\<close>

definition js :: "string \<Rightarrow> js_string" where
  "js s = map (\<lambda>c. of_nat (of_char c)) s"


section \<open>The record store (src/app.js, lines 10--80)\<close>

text \<open>
  Both object stores are created with \<open>keyPath: 'id'\<close>, \<open>autoIncrement: true\<close> and a
  non-unique index on \<open>recordedAt\<close>. Every stored object has the fields of \<open>stored\<close>; a
  glucose object adds \<open>value\<close> and \<open>unit\<close>, a pressure object \<open>systolic\<close> and
  \<open>diastolic\<close>. The type \<open>'n\<close> is the host's Number type: \<open>saveGlucose\<close> and
  \<open>savePressure\<close> store what they are given, unchecked.
  (\<open>id\<close>, \<open>value\<close> and \<open>notes\<close> are reserved words here, hence the suffixes.)
\<close>

record stored =
  id_key :: nat
  recordedAt :: js_string
  notes_txt :: js_string

record 'n glucose_record = stored +
  value_n :: 'n
  unit :: js_string

record 'n pressure_record = stored +
  systolic_n :: 'n
  diastolic_n :: 'n

text \<open>
  An object store: its objects in the order they were added, and the current number of
  its key generator. A key generator starts at 1 and is never reset.
\<close>

record 'r object_store =
  rows :: "'r list"
  keygen :: nat

record 'n database =
  glucose :: "'n glucose_record object_store"
  pressure :: "'n pressure_record object_store"

text \<open>\<open>onupgradeneeded\<close> on a new database: both stores are created empty.\<close>

definition createObjectStore :: "'r object_store" where
  "createObjectStore = \<lparr>rows = [], keygen = 1\<rparr>"

definition initDB :: "'n database option \<Rightarrow> 'n database" where
  "initDB persisted =
     (case persisted of
        None \<Rightarrow> \<lparr>glucose = createObjectStore, pressure = createObjectStore\<rparr>
      | Some d \<Rightarrow> d)"

text \<open>
  The module variable \<open>db\<close> is \<open>null\<close> until \<open>initDB\<close> has resolved; \<open>db.transaction\<close>
  on \<open>null\<close> throws a TypeError inside the promise executor, which rejects the promise.
  A promise is modelled by its outcome: \<open>Inl\<close> the rejection, \<open>Inr\<close> the resolved value.
  Request errors of the engine itself (quota, I/O) are outside the model. A store is named
  by its selector (\<open>glucose\<close>, \<open>pressure\<close>), so a name that is not a store is excluded by
  typing. \<open>RangeError\<close> is what \<open>toISOString\<close> throws for a date out of range.
\<close>

datatype error = TypeError | RangeError

text \<open>
  \<open>store.add(record)\<close> on an auto-increment store with a key path, for an object that has
  no \<open>id\<close> yet: the key is the generator's current number, the engine writes it into the
  object at the key path, and the generator advances. \<open>mk\<close> builds the stored object from
  the key.
\<close>

definition store_add :: "'r object_store \<Rightarrow> (nat \<Rightarrow> 'r) \<Rightarrow> nat \<times> 'r object_store" where
  "store_add s mk =
     (let k = keygen s in (k, s\<lparr>rows := rows s @ [mk k], keygen := Suc k\<rparr>))"

text \<open>\<open>now\<close> is the value of \<open>new Date().toISOString()\<close> at the call.\<close>

definition saveGlucose ::
  "'n database option \<Rightarrow> js_string \<Rightarrow> 'n \<Rightarrow> js_string \<Rightarrow> error + nat \<times> 'n database" where
  "saveGlucose db now v notes =
     (case db of
        None \<Rightarrow> Inl TypeError
      | Some d \<Rightarrow>
          (let (k, s) = store_add (glucose d)
                 (\<lambda>k. \<lparr>id_key = k, recordedAt = now, notes_txt = notes,
                        value_n = v, unit = js ''mmol/L''\<rparr>)
           in Inr (k, d\<lparr>glucose := s\<rparr>)))"

definition savePressure ::
  "'n database option \<Rightarrow> js_string \<Rightarrow> 'n \<Rightarrow> 'n \<Rightarrow> js_string \<Rightarrow> error + nat \<times> 'n database" where
  "savePressure db now sys dia notes =
     (case db of
        None \<Rightarrow> Inl TypeError
      | Some d \<Rightarrow>
          (let (k, s) = store_add (pressure d)
                 (\<lambda>k. \<lparr>id_key = k, recordedAt = now, notes_txt = notes,
                        systolic_n = sys, diastolic_n = dia\<rparr>)
           in Inr (k, d\<lparr>pressure := s\<rparr>)))"


section \<open>The query engine (src/app.js, lines 82--102 and 153--173)\<close>

text \<open>
  The records of the \<open>recordedAt\<close> index are ordered by index key and, for equal keys, by
  primary key, both ascending. A cursor over the index yields the records of its range in
  that order (\<open>next\<close>, the default direction) or in the reverse order (\<open>prev\<close>).
  \<open>IDBKeyRange.lowerBound(x)\<close> is closed at \<open>x\<close>.
\<close>

datatype key_range = LowerBound js_string

datatype direction = Next | Prev

definition index_recordedAt :: "('a stored_scheme) object_store \<Rightarrow> 'a stored_scheme list" where
  "index_recordedAt s = sort_key (\<lambda>r. (recordedAt r, id_key r)) (rows s)"

fun range_includes :: "key_range option \<Rightarrow> js_string \<Rightarrow> bool" where
  "range_includes None k = True"
| "range_includes (Some (LowerBound lo)) k = (lo \<le> k)"

definition openCursor ::
  "key_range option \<Rightarrow> direction \<Rightarrow> ('a stored_scheme) object_store \<Rightarrow> 'a stored_scheme list" where
  "openCursor rng dir s =
     (let recs = filter (\<lambda>r. range_includes rng (recordedAt r)) (index_recordedAt s)
      in case dir of Next \<Rightarrow> recs | Prev \<Rightarrow> rev recs)"

text \<open>
  The \<open>onsuccess\<close> handler of \<open>getRecent\<close>, once per cursor position: the first argument
  is what the cursor has still to yield (\<open>[]\<close> when the cursor is \<open>null\<close>).
\<close>

fun getRecent_onsuccess :: "int \<Rightarrow> 'r list \<Rightarrow> 'r list \<Rightarrow> 'r list" where
  "getRecent_onsuccess limit [] results = results"
| "getRecent_onsuccess limit (c # cursor) results =
     (if int (length results) < limit
      then getRecent_onsuccess limit cursor (results @ [c])
      else results)"

definition getRecent ::
  "'n database option \<Rightarrow> ('n database \<Rightarrow> ('a stored_scheme) object_store) \<Rightarrow> int
     \<Rightarrow> error + 'a stored_scheme list" where
  "getRecent db storeName limit =
     (case db of
        None \<Rightarrow> Inl TypeError
      | Some d \<Rightarrow> Inr (getRecent_onsuccess limit (openCursor None Prev (storeName d)) []))"

text \<open>The \<open>onsuccess\<close> handler of \<open>getFilteredRecords\<close>.\<close>

fun getFilteredRecords_onsuccess :: "'r list \<Rightarrow> 'r list \<Rightarrow> 'r list" where
  "getFilteredRecords_onsuccess [] results = results"
| "getFilteredRecords_onsuccess (c # cursor) results =
     getFilteredRecords_onsuccess cursor (results @ [c])"

definition getFilteredRecords ::
  "'n database option \<Rightarrow> ('n database \<Rightarrow> ('a stored_scheme) object_store) \<Rightarrow> js_string
     \<Rightarrow> error + 'a stored_scheme list" where
  "getFilteredRecords db storeName cutoffISO =
     (case db of
        None \<Rightarrow> Inl TypeError
      | Some d \<Rightarrow>
          Inr (getFilteredRecords_onsuccess
                 (openCursor (Some (LowerBound cutoffISO)) Next (storeName d)) []))"


section \<open>The statistics aggregator (src/app.js, lines 104--151)\<close>

text \<open>
  The arithmetic of \<open>getStats\<close> is the host's, on IEEE-754 binary64 Numbers: addition,
  division, \<open>Number.prototype.toFixed\<close>, \<open>Math.round\<close>, \<open>Math.min\<close> and \<open>Math.max\<close>.
  It is taken as a parameter, as is the clock: \<open>cutoffISO days\<close> is the string that
  \<open>new Date()\<close>, \<open>setDate(getDate() - days)\<close> and \<open>toISOString()\<close> produce at the call,
  or \<open>None\<close> when \<open>days\<close> takes the date out of the range of \<open>Date\<close>, where
  \<open>toISOString\<close> throws and \<open>getStats\<close> returns nothing.
\<close>

record 'n host =
  num_of_nat :: "nat \<Rightarrow> 'n"
  num_add :: "'n \<Rightarrow> 'n \<Rightarrow> 'n"
  num_div :: "'n \<Rightarrow> 'n \<Rightarrow> 'n"
  toFixed :: "'n \<Rightarrow> nat \<Rightarrow> js_string"
  Math_round :: "'n \<Rightarrow> 'n"
  Math_min :: "'n list \<Rightarrow> 'n"
  Math_max :: "'n list \<Rightarrow> 'n"
  cutoffISO :: "int \<Rightarrow> js_string option"

text \<open>
  The two result objects; \<open>null\<close> is \<open>None\<close>. \<open>average\<close> is the string that \<open>toFixed(1)\<close>
  returns. (\<open>count\<close>, \<open>min\<close>, \<open>max\<close>, \<open>glucose\<close> and \<open>pressure\<close> are taken, hence the
  suffixes.)
\<close>

record 'n glucose_stats =
  count_g :: nat
  average :: "js_string option"
  min_g :: "'n option"
  max_g :: "'n option"

record 'n pressure_stats =
  count_p :: nat
  avgSystolic :: "'n option"
  avgDiastolic :: "'n option"
  minSystolic :: "'n option"
  maxSystolic :: "'n option"
  minDiastolic :: "'n option"
  maxDiastolic :: "'n option"

record 'n stats =
  glucose_s :: "'n glucose_stats"
  pressure_s :: "'n pressure_stats"

text \<open>\<open>xs.reduce((a, b) => a + b, 0) / xs.length\<close>\<close>

definition mean :: "'n host \<Rightarrow> 'n list \<Rightarrow> 'n" where
  "mean h xs = num_div h (foldl (num_add h) (num_of_nat h 0) xs) (num_of_nat h (length xs))"

definition glucoseStats :: "'n host \<Rightarrow> 'n glucose_record list \<Rightarrow> 'n glucose_stats" where
  "glucoseStats h glucoseRecords =
     (let st = \<lparr>count_g = length glucoseRecords, average = None, min_g = None, max_g = None\<rparr>
      in if length glucoseRecords > 0
         then (let vals = map value_n glucoseRecords
               in st\<lparr>average := Some (toFixed h (mean h vals) 1),
                     min_g := Some (Math_min h vals),
                     max_g := Some (Math_max h vals)\<rparr>)
         else st)"

definition pressureStats :: "'n host \<Rightarrow> 'n pressure_record list \<Rightarrow> 'n pressure_stats" where
  "pressureStats h pressureRecords =
     (let st = \<lparr>count_p = length pressureRecords, avgSystolic = None, avgDiastolic = None,
                minSystolic = None, maxSystolic = None,
                minDiastolic = None, maxDiastolic = None\<rparr>
      in if length pressureRecords > 0
         then (let systolics = map systolic_n pressureRecords;
                   diastolics = map diastolic_n pressureRecords
               in st\<lparr>avgSystolic := Some (Math_round h (mean h systolics)),
                     avgDiastolic := Some (Math_round h (mean h diastolics)),
                     minSystolic := Some (Math_min h systolics),
                     maxSystolic := Some (Math_max h systolics),
                     minDiastolic := Some (Math_min h diastolics),
                     maxDiastolic := Some (Math_max h diastolics)\<rparr>)
         else st)"

text \<open>\<open>Promise.all\<close> rejects as soon as one of the two reads rejects.\<close>

definition getStats :: "'n host \<Rightarrow> 'n database option \<Rightarrow> int \<Rightarrow> error + 'n stats" where
  "getStats h db days =
     (case cutoffISO h days of
        None \<Rightarrow> Inl RangeError
      | Some cutoff \<Rightarrow>
          (case getFilteredRecords db glucose cutoff of
             Inl e \<Rightarrow> Inl e
           | Inr glucoseRecords \<Rightarrow>
               (case getFilteredRecords db pressure cutoff of
                  Inl e \<Rightarrow> Inl e
                | Inr pressureRecords \<Rightarrow>
                    Inr \<lparr>glucose_s = glucoseStats h glucoseRecords,
                         pressure_s = pressureStats h pressureRecords\<rparr>)))"


section \<open>The text extractor (src/app.js, lines 257--278)\<close>

subsection \<open>Regular expressions\<close>

text \<open>
  The two patterns of \<open>parseHealthText\<close> are regular expression literals, and their meaning
  is that of the backtracking matcher of ECMAScript (ECMA-262, RegExp pattern semantics),
  for the constructs the literals use: a character, a character class, a sequence, a
  greedy quantifier and a capturing group. A matcher maps a state (the end index reached in
  the input and the captures so far) to the states it can reach, in the order in which
  backtracking would try them: the head of the list is the match that is found.
\<close>

datatype class_atom =
    ClassChar code_unit
  | ClassRange code_unit code_unit
  | ClassDigit
  | ClassSpace

datatype regex =
    Char code_unit
  | CharClass bool "class_atom list"
  | Seq regex regex
  | Quantified regex nat "nat option"
  | Group nat regex

text \<open>\<open>\d\<close> is \<open>[0-9]\<close>; \<open>\s\<close> is WhiteSpace and LineTerminator of ECMA-262.\<close>

definition is_digit :: "code_unit \<Rightarrow> bool" where
  "is_digit c \<longleftrightarrow> 0x30 \<le> c \<and> c \<le> 0x39"

definition is_space :: "code_unit \<Rightarrow> bool" where
  "is_space c \<longleftrightarrow>
     c \<in> set [0x0009, 0x000A, 0x000B, 0x000C, 0x000D, 0x0020, 0x00A0, 0x1680,
              0x2028, 0x2029, 0x202F, 0x205F, 0x3000, 0xFEFF]
     \<or> (0x2000 \<le> c \<and> c \<le> 0x200A)"

fun atom_matches :: "class_atom \<Rightarrow> code_unit \<Rightarrow> bool" where
  "atom_matches (ClassChar a) c = (c = a)"
| "atom_matches (ClassRange lo hi) c = (lo \<le> c \<and> c \<le> hi)"
| "atom_matches ClassDigit c = is_digit c"
| "atom_matches ClassSpace c = is_space c"

text \<open>\<open>CharClass True\<close> is a negated class, \<open>[^...]\<close>.\<close>

definition class_matches :: "bool \<Rightarrow> class_atom list \<Rightarrow> code_unit \<Rightarrow> bool" where
  "class_matches invert atoms c = ((\<exists>a \<in> set atoms. atom_matches a c) \<noteq> invert)"

record match_state =
  endIndex :: nat
  captures :: "nat \<Rightarrow> js_string option"

text \<open>The state a match attempt at index \<open>i\<close> starts from: no capture is defined.\<close>

definition start_at :: "nat \<Rightarrow> match_state" where
  "start_at i = \<lparr>endIndex = i, captures = (\<lambda>k. None)\<rparr>"

definition substring :: "js_string \<Rightarrow> nat \<Rightarrow> nat \<Rightarrow> js_string" where
  "substring input from to = take (to - from) (drop from input)"

definition character_matcher ::
  "(code_unit \<Rightarrow> bool) \<Rightarrow> js_string \<Rightarrow> match_state \<Rightarrow> match_state list" where
  "character_matcher accepts input x =
     (if endIndex x < length input \<and> accepts (input ! endIndex x)
      then [x\<lparr>endIndex := Suc (endIndex x)\<rparr>]
      else [])"

text \<open>The numbers of the capturing groups inside a pattern.\<close>

primrec groups_of :: "regex \<Rightarrow> nat list" where
  "groups_of (Char c) = []"
| "groups_of (CharClass invert atoms) = []"
| "groups_of (Seq r1 r2) = groups_of r1 @ groups_of r2"
| "groups_of (Quantified r lo hi) = groups_of r"
| "groups_of (Group k r) = k # groups_of r"

definition reset_captures :: "nat list \<Rightarrow> match_state \<Rightarrow> match_state" where
  "reset_captures ks x = x\<lparr>captures := (\<lambda>k. if k \<in> set ks then None else captures x k)\<rparr>"

text \<open>
  RepeatMatcher, greedy, with \<open>max\<close> finite: with \<open>max = 0\<close> the quantifier is done;
  otherwise one more iteration of \<open>m\<close> is tried first, on the state with the captures of
  the quantified groups reset, and each state it reaches continues with the counts
  decremented, unless \<open>min = 0\<close> and the iteration consumed nothing; only when \<open>min = 0\<close>
  is stopping here an alternative, tried last.
\<close>

fun repeat_matcher ::
  "(match_state \<Rightarrow> match_state list) \<Rightarrow> nat list \<Rightarrow> nat \<Rightarrow> nat \<Rightarrow> match_state
     \<Rightarrow> match_state list" where
  "repeat_matcher m ks lo 0 x = [x]"
| "repeat_matcher m ks lo (Suc hi) x =
     (let again = concat (map (\<lambda>y. if lo = 0 \<and> endIndex y = endIndex x then []
                                      else repeat_matcher m ks (lo - 1) hi y)
                              (m (reset_captures ks x)))
      in if lo \<noteq> 0 then again else again @ [x])"

text \<open>
  A quantifier without upper bound (\<open>*\<close>, \<open>+\<close>) gets the bound \<open>min\<close> plus the number of
  code units left: beyond the first \<open>min\<close> iterations every iteration must consume at
  least one code unit, so no more iterations than that can succeed.
\<close>

primrec matcher :: "regex \<Rightarrow> js_string \<Rightarrow> match_state \<Rightarrow> match_state list" where
  "matcher (Char c) input x = character_matcher (\<lambda>a. a = c) input x"
| "matcher (CharClass invert atoms) input x =
     character_matcher (class_matches invert atoms) input x"
| "matcher (Seq r1 r2) input x = concat (map (matcher r2 input) (matcher r1 input x))"
| "matcher (Quantified r lo hi) input x =
     repeat_matcher (matcher r input) (groups_of r) lo
       (case hi of Some n \<Rightarrow> n | None \<Rightarrow> lo + (length input - endIndex x)) x"
| "matcher (Group k r) input x =
     map (\<lambda>y. y\<lparr>captures := (captures y)(k \<mapsto> substring input (endIndex x) (endIndex y))\<rparr>)
       (matcher r input x)"

text \<open>
  RegExpBuiltinExec for a pattern without the \<open>g\<close> and \<open>y\<close> flags: the match is tried at
  index 0, then 1, and so on up to the length of the input; the first index with a match
  wins. The result array holds the matched substring at 0 and capture \<open>k\<close> at \<open>k\<close>
  (\<open>None\<close> is \<open>undefined\<close>); \<open>null\<close> is \<open>None\<close>.
\<close>

type_synonym match_array = "nat \<Rightarrow> js_string option"

function regexp_exec_from :: "regex \<Rightarrow> js_string \<Rightarrow> nat \<Rightarrow> (nat \<times> match_array) option" where
  "regexp_exec_from r input lastIndex =
     (if lastIndex > length input then None
      else case matcher r input (start_at lastIndex) of
             [] \<Rightarrow> regexp_exec_from r input (Suc lastIndex)
           | y # _ \<Rightarrow>
               Some (lastIndex,
                     (captures y)(0 \<mapsto> substring input lastIndex (endIndex y))))"
  by pat_completeness auto
termination
  by (relation "measure (\<lambda>(r, input, lastIndex). Suc (length input) - lastIndex)") auto

text \<open>\<open>text.match(r)\<close> for a pattern without the \<open>g\<close> flag is \<open>r.exec(text)\<close>.\<close>

definition string_match :: "js_string \<Rightarrow> regex \<Rightarrow> match_array option" where
  "string_match text r = map_option snd (regexp_exec_from r text 0)"

subsection \<open>The two patterns\<close>

text \<open>\<open>[\<^verbatim>\<open>U+FF1A\<close>:\s]\<close>, the separators after a keyword, and \<open>[0-9]\<close>.\<close>

definition separator :: regex where
  "separator = CharClass False [ClassChar 0xFF1A, ClassChar 0x3A, ClassSpace]"

definition digit :: regex where
  "digit = CharClass False [ClassRange 0x30 0x39]"

text \<open>
  The glucose pattern: the keyword (U+8840 U+7CD6), \<open>[:\s]*\<close> with the full-width colon
  too, and the group \<open>([0-9]+(?:\.[0-9]+)?)\<close>.
\<close>

definition sugar_pattern :: regex where
  "sugar_pattern =
     Seq (Char 0x8840) (Seq (Char 0x7CD6)
     (Seq (Quantified separator 0 None)
          (Group 1 (Seq (Quantified digit 1 None)
                        (Quantified (Seq (Char 0x2E) (Quantified digit 1 None)) 0 (Some 1))))))"

text \<open>
  The pressure pattern: the keyword (U+8840 U+538B), the separators, \<open>([0-9]{2,3})\<close>,
  \<open>[^\d]{1,3}\<close> and \<open>([0-9]{2,3})\<close>.
\<close>

definition bp_pattern :: regex where
  "bp_pattern =
     Seq (Char 0x8840) (Seq (Char 0x538B)
     (Seq (Quantified separator 0 None)
     (Seq (Group 1 (Quantified digit 2 (Some 3)))
     (Seq (Quantified (CharClass True [ClassDigit]) 1 (Some 3))
          (Group 2 (Quantified digit 2 (Some 3)))))))"

subsection \<open>parseInt and parseHealthText\<close>

text \<open>
  \<open>parseInt(s)\<close> without a radix: leading white space is skipped, a sign is read, a prefix
  \<open>0x\<close> or \<open>0X\<close> selects radix 16, and the longest run of digits of the radix is the
  value; without a digit the result is \<open>NaN\<close>. The argument \<open>undefined\<close> is converted
  to the string "undefined", which has no digit. The value is the mathematical integer,
  which is the Number itself below \<open>2^53\<close>.
\<close>

datatype number = NaN | Finite int

definition digit_value :: "code_unit \<Rightarrow> nat" where
  "digit_value c =
     (if 0x30 \<le> c \<and> c \<le> 0x39 then unat c - 0x30
      else if 0x61 \<le> c \<and> c \<le> 0x7A then unat c - 0x61 + 10
      else if 0x41 \<le> c \<and> c \<le> 0x5A then unat c - 0x41 + 10
      else 36)"

definition parseInt :: "js_string option \<Rightarrow> number" where
  "parseInt arg =
     (case arg of
        None \<Rightarrow> NaN
      | Some str \<Rightarrow>
          (let s = dropWhile is_space str;
               sign = (if take 1 s = [0x2D] then - 1 else 1);
               s = (if take 1 s = [0x2B] \<or> take 1 s = [0x2D] then drop 1 s else s);
               hex = (take 2 s = [0x30, 0x78] \<or> take 2 s = [0x30, 0x58]);
               radix = (if hex then 16 else 10);
               s = (if hex then drop 2 s else s);
               z = takeWhile (\<lambda>c. digit_value c < radix) s
           in if z = [] then NaN
              else Finite (sign * int (foldl (\<lambda>a c. a * radix + digit_value c) 0 z))))"

text \<open>A comparison with \<open>NaN\<close> is false.\<close>

fun num_ge :: "number \<Rightarrow> int \<Rightarrow> bool" where
  "num_ge NaN b = False"
| "num_ge (Finite v) b = (v \<ge> b)"

fun num_le :: "number \<Rightarrow> int \<Rightarrow> bool" where
  "num_le NaN b = False"
| "num_le (Finite v) b = (v \<le> b)"

text \<open>
  The result object: a property that was never assigned is \<open>None\<close>. \<open>bloodSugar\<close> is a
  Number of the host, what its \<open>parseFloat\<close> returns for the first capture (a binary64
  value, so \<open>parseFloat\<close> is a parameter). \<open>systolic\<close> and \<open>diastolic\<close> are assigned what
  \<open>parseInt\<close> returned.
\<close>

record 'n parsed =
  bloodSugar :: "'n option"
  systolic :: "number option"
  diastolic :: "number option"

definition parseHealthText :: "(js_string option \<Rightarrow> 'n) \<Rightarrow> js_string \<Rightarrow> 'n parsed" where
  "parseHealthText parseFloat text =
     (let result = \<lparr>bloodSugar = None, systolic = None, diastolic = None\<rparr>;
          sugarMatch = string_match text sugar_pattern;
          result = (case sugarMatch of
                      None \<Rightarrow> result
                    | Some m \<Rightarrow> result\<lparr>bloodSugar := Some (parseFloat (m 1))\<rparr>);
          bpMatch = string_match text bp_pattern
      in case bpMatch of
           None \<Rightarrow> result
         | Some m \<Rightarrow>
             (let sys = parseInt (m 1); dia = parseInt (m 2)
              in if num_ge sys 60 \<and> num_le sys 250 \<and> num_ge dia 40 \<and> num_le dia 150
                 then result\<lparr>systolic := Some sys, diastolic := Some dia\<rparr>
                 else result))"


section \<open>Properties and test data\<close>

text \<open>
  \<open>newer a b\<close>: \<open>a\<close> comes no later than \<open>b\<close> when the order is by \<open>recordedAt\<close>
  descending, ties by \<open>id\<close> descending. \<open>strictly_newer\<close> is its strict part.
\<close>

definition newer :: "'a stored_scheme \<Rightarrow> 'a stored_scheme \<Rightarrow> bool" where
  "newer a b \<longleftrightarrow>
     recordedAt b < recordedAt a \<or> (recordedAt b = recordedAt a \<and> id_key b \<le> id_key a)"

definition strictly_newer :: "'a stored_scheme \<Rightarrow> 'a stored_scheme \<Rightarrow> bool" where
  "strictly_newer a b \<longleftrightarrow>
     recordedAt b < recordedAt a \<or> (recordedAt b = recordedAt a \<and> id_key b < id_key a)"

text \<open>
  Records with the same \<open>recordedAt\<close> appear in insertion order, that is by ascending
  \<open>id\<close>.
\<close>

definition ties_in_insertion_order :: "'a stored_scheme list \<Rightarrow> bool" where
  "ties_in_insertion_order rs \<longleftrightarrow>
     sorted_wrt (\<lambda>a b. recordedAt a = recordedAt b \<longrightarrow> id_key a < id_key b) rs"

text \<open>
  The invariant of a store that only \<open>store_add\<close> writes to: the ids grow along the
  rows and stay below the key generator.
\<close>

definition ids_monotonic :: "('a stored_scheme) object_store \<Rightarrow> bool" where
  "ids_monotonic s \<longleftrightarrow>
     sorted_wrt (<) (map id_key (rows s)) \<and> (\<forall>r \<in> set (rows s). id_key r < keygen s)"

text \<open>No record of the store was written after \<open>now\<close>: the clock has not run backwards.\<close>

definition recorded_by :: "js_string \<Rightarrow> ('a stored_scheme) object_store \<Rightarrow> bool" where
  "recorded_by now s \<longleftrightarrow> (\<forall>r \<in> set (rows s). recordedAt r \<le> now)"

text \<open>The two keywords, U+8840 U+7CD6 (blood glucose) and U+8840 U+538B (blood pressure).\<close>

definition kw_sugar :: js_string where
  "kw_sugar = [0x8840, 0x7CD6]"

definition kw_bp :: js_string where
  "kw_bp = [0x8840, 0x538B]"

text \<open>The texts of the examples; U+FF0C is the full-width comma.\<close>

definition text_bp_300_90 :: js_string where
  "text_bp_300_90 = kw_bp @ js ''300 90''"

definition text_bp_130_85 :: js_string where
  "text_bp_130_85 = kw_bp @ js ''130 85''"

definition text_sugar_and_bp :: js_string where
  "text_sugar_and_bp = kw_sugar @ js ''6.4'' @ [0xFF0C] @ kw_bp @ js ''130 85''"

definition text_sugar_bp_rejected :: js_string where
  "text_sugar_bp_rejected = kw_sugar @ js ''6.4'' @ [0xFF0C] @ kw_bp @ js ''300 90''"

definition text_bp_twice :: js_string where
  "text_bp_twice = kw_bp @ js ''300 90'' @ [0xFF0C] @ kw_bp @ js ''130 85''"

text \<open>
  A database written by the save operations alone, starting from a new one. The reading
  6.4 mmol/L is written as a rational number where a concrete host Number is needed.
\<close>

definition after_saveGlucose :: "'n database \<Rightarrow> js_string \<Rightarrow> 'n \<Rightarrow> 'n database" where
  "after_saveGlucose d now v =
     (case saveGlucose (Some d) now v [] of Inl e \<Rightarrow> d | Inr (k, d') \<Rightarrow> d')"

definition after_savePressure :: "'n database \<Rightarrow> js_string \<Rightarrow> 'n \<Rightarrow> 'n \<Rightarrow> 'n database" where
  "after_savePressure d now sys dia =
     (case savePressure (Some d) now sys dia [] of Inl e \<Rightarrow> d | Inr (k, d') \<Rightarrow> d')"

definition day1 :: js_string where
  "day1 = js ''2024-05-01T08:00:00.000Z''"

definition day2 :: js_string where
  "day2 = js ''2024-05-02T08:00:00.000Z''"

definition day3 :: js_string where
  "day3 = js ''2024-05-03T08:00:00.000Z''"

definition day4 :: js_string where
  "day4 = js ''2024-05-04T08:00:00.000Z''"

text \<open>Three glucose readings and one pressure reading, on three days.\<close>

definition three_days :: "rat database" where
  "three_days =
     after_savePressure
       (after_saveGlucose (after_saveGlucose (after_saveGlucose (initDB None) day1 5.6)
          day2 6.4) day3 7.1)
       day3 130 85"

text \<open>Two glucose readings saved within the same millisecond.\<close>

definition same_instant :: "rat database" where
  "same_instant = after_saveGlucose (after_saveGlucose (initDB None) day1 5.6) day1 6.4"

text \<open>
  A reading saved on the third day, and then, with the clock set back, one on the first.
\<close>

definition clock_set_back :: "rat database" where
  "clock_set_back = after_saveGlucose (after_saveGlucose (initDB None) day3 7.1) day1 5.6"

text \<open>
  A host whose Numbers are rational numbers and whose arithmetic is exact. \<open>toFixed\<close>
  rounds half away from zero and writes the digits; \<open>Math.round\<close> rounds half up. Its
  clock is stopped at \<open>day4\<close>, and the cutoffs are tabulated for 0 to 3 days.
\<close>

function digit_string :: "nat \<Rightarrow> js_string" where
  "digit_string n =
     (if n < 10 then [of_nat (48 + n)]
      else digit_string (n div 10) @ [of_nat (48 + n mod 10)])"
  by pat_completeness auto
termination
  by (relation "measure id") auto

definition exact_toFixed :: "rat \<Rightarrow> nat \<Rightarrow> js_string" where
  "exact_toFixed x fractionDigits =
     (let n = nat \<lfloor>\<bar>x\<bar> * 10 ^ fractionDigits + 1 / 2\<rfloor>;
          ds = digit_string n;
          ds = replicate (Suc fractionDigits - length ds) 0x30 @ ds;
          whole = take (length ds - fractionDigits) ds;
          frac = drop (length ds - fractionDigits) ds
      in (if x < 0 then [0x2D] else []) @ whole
           @ (if fractionDigits = 0 then [] else 0x2E # frac))"

definition exact_host :: "rat host" where
  "exact_host =
     \<lparr>num_of_nat = of_nat, num_add = (+), num_div = (/),
      toFixed = exact_toFixed,
      Math_round = (\<lambda>x. of_int \<lfloor>x + 1 / 2\<rfloor>),
      Math_min = (\<lambda>xs. fold min xs (hd xs)), Math_max = (\<lambda>xs. fold max xs (hd xs)),
      cutoffISO = (\<lambda>days. if days = 0 then Some day4 else if days = 1 then Some day3
                           else if days = 2 then Some day2 else if days = 3 then Some day1
                           else None)\<rparr>"

text \<open>The two stored objects of \<open>same_instant\<close>.\<close>

definition first_saved :: "rat glucose_record" where
  "first_saved = \<lparr>id_key = 1, recordedAt = day1, notes_txt = [],
                   value_n = 5.6, unit = js ''mmol/L''\<rparr>"

definition second_saved :: "rat glucose_record" where
  "second_saved = \<lparr>id_key = 2, recordedAt = day1, notes_txt = [],
                    value_n = 6.4, unit = js ''mmol/L''\<rparr>"


text \<open>A matcher only moves forward, and never past the end of the input.\<close>

definition forward :: "js_string \<Rightarrow> (match_state \<Rightarrow> match_state list) \<Rightarrow> bool" where
  "forward input m \<longleftrightarrow>
     (\<forall>x y. y \<in> set (m x) \<longrightarrow>
        endIndex x \<le> endIndex y \<and> (endIndex x \<le> length input \<longrightarrow> endIndex y \<le> length input))"


text \<open>
  A \<open>parseFloat\<close> for the examples, on a host whose Numbers are rational numbers: the
  exact value of a decimal numeral \<open>digits\<close> or \<open>digits.digits\<close>.
\<close>

definition decimal :: "js_string \<Rightarrow> nat" where
  "decimal s = foldl (\<lambda>a c. a * 10 + digit_value c) 0 s"

definition exact_parseFloat :: "js_string option \<Rightarrow> rat" where
  "exact_parseFloat arg =
     (case arg of
        None \<Rightarrow> 0
      | Some s \<Rightarrow>
          (let whole = takeWhile is_digit s;
               rest = drop (length whole) s;
               frac = (if take 1 rest = [0x2E] then takeWhile is_digit (drop 1 rest) else [])
           in of_nat (decimal whole) + of_nat (decimal frac) / 10 ^ length frac))"


section \<open>The query engine: what the cursor loops return\<close>

lemma getRecent_onsuccess_take:
  "getRecent_onsuccess limit cursor results =
     results @ take (nat limit - length results) cursor"
proof (induction cursor arbitrary: results)
  case Nil
  then show ?case by simp
next
  case (Cons c cursor)
  show ?case
  proof (cases "int (length results) < limit")
    case True
    then have "nat limit - length results = Suc (nat limit - Suc (length results))" by linarith
    with True Cons show ?thesis by simp
  next
    case False
    then have "nat limit - length results = 0" by linarith
    with False show ?thesis by simp
  qed
qed

lemma getFilteredRecords_onsuccess_all:
  "getFilteredRecords_onsuccess cursor results = results @ cursor"
  by (induction cursor arbitrary: results) auto

lemma sorted_index: "sorted (map (\<lambda>r. (recordedAt r, id_key r)) (index_recordedAt s))"
  by (simp add: index_recordedAt_def)

lemma mset_index: "mset (index_recordedAt s) = mset (rows s)"
  by (simp add: index_recordedAt_def)

lemma index_newer: "sorted_wrt (\<lambda>a b. newer b a) (index_recordedAt s)"
proof -
  have "sorted_wrt (\<lambda>a b. (recordedAt a, id_key a) \<le> (recordedAt b, id_key b)) (index_recordedAt s)"
    using sorted_index [of s] by (simp add: sorted_map)
  then show ?thesis
    by (rule sorted_wrt_mono_rel [rotated]) (auto simp: newer_def less_eq_prod_def)
qed

lemma openCursor_prev: "openCursor None Prev s = rev (index_recordedAt s)"
  by (simp add: openCursor_def)

lemma openCursor_lowerBound:
  "openCursor (Some (LowerBound lo)) Next s = filter (\<lambda>r. lo \<le> recordedAt r) (index_recordedAt s)"
  by (simp add: openCursor_def)

lemma getRecent_take:
  "getRecent (Some d) storeName limit =
     Inr (take (nat limit) (rev (index_recordedAt (storeName d))))"
  by (simp add: getRecent_def getRecent_onsuccess_take openCursor_prev)

text \<open>
  Claim C1. With the database open and a positive integer limit, \<open>getRecent\<close> resolves
  for either store, to at most \<open>limit\<close> records (as many as the store has, up to the
  limit), ordered by \<open>recordedAt\<close> descending with ties by \<open>id\<close> descending; the records
  it leaves out are none of them newer than one it returns; and for a store without records
  it resolves to the empty array.
\<close>

theorem getRecent_newest_first:
  assumes "0 < limit"
  shows "\<exists>rs rest. getRecent (Some d) storeName limit = Inr rs
           \<and> int (length rs) \<le> limit
           \<and> length rs = min (nat limit) (length (rows (storeName d)))
           \<and> sorted_wrt newer rs
           \<and> mset rs + mset rest = mset (rows (storeName d))
           \<and> (\<forall>x \<in> set rs. \<forall>y \<in> set rest. newer x y)
           \<and> (rows (storeName d) = [] \<longrightarrow> rs = [])"
proof -
  define xs where "xs = rev (index_recordedAt (storeName d))"
  define rs where "rs = take (nat limit) xs"
  define rest where "rest = drop (nat limit) xs"
  have len: "length xs = length (rows (storeName d))"
    using mset_index [of "storeName d"] by (metis xs_def length_rev size_mset)
  have "sorted_wrt newer xs"
    unfolding xs_def using index_newer [of "storeName d"] by (simp add: sorted_wrt_rev)
  then have "sorted_wrt newer (rs @ rest)"
    by (simp add: rs_def rest_def)
  then have ord: "sorted_wrt newer rs" and cut: "\<forall>x \<in> set rs. \<forall>y \<in> set rest. newer x y"
    by (simp_all add: sorted_wrt_append)
  have "mset rs + mset rest = mset xs"
    unfolding rs_def rest_def by (metis append_take_drop_id mset_append)
  then have ms: "mset rs + mset rest = mset (rows (storeName d))"
    by (simp add: xs_def mset_index)
  have l1: "length rs = min (nat limit) (length (rows (storeName d)))"
    by (simp add: rs_def len min.commute)
  have l2: "int (length rs) \<le> limit"
    using assms l1 by linarith
  have "getRecent (Some d) storeName limit = Inr rs"
    by (simp add: getRecent_take rs_def xs_def)
  moreover have "rows (storeName d) = [] \<longrightarrow> rs = []"
    using l1 by auto
  ultimately show ?thesis
    using l1 l2 ord ms cut by (intro exI [of _ rs] exI [of _ rest] conjI)
qed

theorem getRecent_newest_first_witness:
  "0 < (2::int) \<and>
   (\<exists>rs rest. getRecent (Some three_days) glucose 2 = Inr rs
      \<and> int (length rs) \<le> 2
      \<and> length rs = min (nat 2) (length (rows (glucose three_days)))
      \<and> sorted_wrt newer rs
      \<and> mset rs + mset rest = mset (rows (glucose three_days))
      \<and> (\<forall>x \<in> set rs. \<forall>y \<in> set rest. newer x y)
      \<and> (rows (glucose three_days) = [] \<longrightarrow> rs = []))"
  using getRecent_newest_first [of 2 three_days glucose] by simp

text \<open>Inserts on three days, then the two most recent: the third day first, then the second.\<close>

lemma getRecent_three_days:
  "getRecent (Some three_days) glucose 2 =
     Inr [\<lparr>id_key = 3, recordedAt = day3, notes_txt = [], value_n = 7.1, unit = js ''mmol/L''\<rparr>,
          \<lparr>id_key = 2, recordedAt = day2, notes_txt = [], value_n = 6.4, unit = js ''mmol/L''\<rparr>]"
  by code_simp

lemma getRecent_new_database: "getRecent (Some (initDB None)) glucose limit = Inr []"
  by (simp add: getRecent_take index_recordedAt_def initDB_def createObjectStore_def)

lemma index_distinct_keys:
  assumes "distinct (map id_key (rows s))"
  shows "distinct (map (\<lambda>r. (recordedAt r, id_key r)) (index_recordedAt s))"
proof -
  have "inj_on id_key (set (rows s))" and d: "distinct (rows s)"
    using assms by (simp_all add: distinct_map)
  then have "inj_on (\<lambda>r. (recordedAt r, id_key r)) (set (rows s))"
    by (auto simp: inj_on_def)
  with d show ?thesis
    by (simp add: distinct_map index_recordedAt_def)
qed

lemma ids_monotonic_distinct: "ids_monotonic s \<Longrightarrow> distinct (map id_key (rows s))"
  by (simp add: ids_monotonic_def strict_sorted_iff)

lemma index_strictly_newer:
  assumes "distinct (map id_key (rows s))"
  shows "sorted_wrt (\<lambda>a b. strictly_newer b a) (index_recordedAt s)"
proof -
  have "sorted_wrt (<) (map (\<lambda>r. (recordedAt r, id_key r)) (index_recordedAt s))"
    using sorted_index [of s] index_distinct_keys [OF assms] by (simp add: strict_sorted_iff)
  then have "sorted_wrt (\<lambda>a b. (recordedAt a, id_key a) < (recordedAt b, id_key b))
               (index_recordedAt s)"
    by (simp add: sorted_wrt_map)
  then show ?thesis
    by (rule sorted_wrt_mono_rel [rotated]) (auto simp: strictly_newer_def less_prod_def)
qed

text \<open>
  Claim C6, as amended. In a store written by \<open>store_add\<close> alone, \<open>getRecent\<close> returns
  its records in a strict total order: by \<open>recordedAt\<close> descending, and records with
  identical \<open>recordedAt\<close> by \<open>id\<close> descending, the later insert first. Of two different
  records of the store exactly one precedes the other in that order.
\<close>

theorem getRecent_ties_latest_id_first:
  assumes "ids_monotonic (storeName d)"
  shows "\<exists>rs. getRecent (Some d) storeName limit = Inr rs
           \<and> sorted_wrt strictly_newer rs
           \<and> (\<forall>a \<in> set (rows (storeName d)). \<forall>b \<in> set (rows (storeName d)).
                 a \<noteq> b \<longrightarrow> strictly_newer a b \<noteq> strictly_newer b a)"
proof -
  have dist: "distinct (map id_key (rows (storeName d)))"
    using assms by (rule ids_monotonic_distinct)
  have "sorted_wrt strictly_newer (rev (index_recordedAt (storeName d)))"
    using index_strictly_newer [OF dist] by (simp add: sorted_wrt_rev)
  then have "sorted_wrt strictly_newer (take (nat limit) (rev (index_recordedAt (storeName d))))"
    by (rule sorted_wrt_take)
  moreover have "strictly_newer a b \<noteq> strictly_newer b a"
    if "a \<in> set (rows (storeName d))" "b \<in> set (rows (storeName d))" "a \<noteq> b" for a b
  proof -
    have "inj_on id_key (set (rows (storeName d)))"
      using dist by (simp add: distinct_map)
    with that have "id_key a \<noteq> id_key b"
      by (auto simp: inj_on_def)
    then show ?thesis
      by (auto simp: strictly_newer_def)
  qed
  then have "\<forall>a \<in> set (rows (storeName d)). \<forall>b \<in> set (rows (storeName d)).
                 a \<noteq> b \<longrightarrow> strictly_newer a b \<noteq> strictly_newer b a"
    by blast
  moreover have "getRecent (Some d) storeName limit =
      Inr (take (nat limit) (rev (index_recordedAt (storeName d))))"
    by (rule getRecent_take)
  ultimately show ?thesis
    by (intro exI [of _ "take (nat limit) (rev (index_recordedAt (storeName d)))"] conjI)
qed

lemma ids_monotonic_same_instant: "ids_monotonic (glucose same_instant)"
  by code_simp

theorem getRecent_ties_latest_id_first_witness:
  "ids_monotonic (glucose same_instant) \<and>
   (\<exists>rs. getRecent (Some same_instant) glucose 2 = Inr rs
      \<and> sorted_wrt strictly_newer rs
      \<and> (\<forall>a \<in> set (rows (glucose same_instant)). \<forall>b \<in> set (rows (glucose same_instant)).
            a \<noteq> b \<longrightarrow> strictly_newer a b \<noteq> strictly_newer b a))"
  using getRecent_ties_latest_id_first [of glucose same_instant 2] ids_monotonic_same_instant
  by simp

text \<open>
  Claim C6 as stated fails: two glucose readings saved within the same millisecond come
  back with the second insert first, not in insertion order.
\<close>

theorem getRecent_ties_counterexample:
  "getRecent (Some same_instant) glucose 2 = Inr [second_saved, first_saved]
   \<and> recordedAt first_saved = recordedAt second_saved
   \<and> id_key first_saved < id_key second_saved
   \<and> \<not> ties_in_insertion_order [second_saved, first_saved]"
  by code_simp

text \<open>\<open>same_instant\<close> is what the two saves leave, with the ids 1 and 2.\<close>

lemma same_instant_saves:
  "saveGlucose (Some (initDB None)) day1 (5.6::rat) [] =
     Inr (1, after_saveGlucose (initDB None) day1 5.6)"
  "saveGlucose (Some (after_saveGlucose (initDB None) day1 5.6)) day1 6.4 [] = Inr (2, same_instant)"
  by code_simp+

lemma ids_monotonic_new: "ids_monotonic createObjectStore"
  by (simp add: ids_monotonic_def createObjectStore_def)

lemma ids_monotonic_add:
  assumes "ids_monotonic s" and "\<And>k. id_key (mk k) = k"
  shows "ids_monotonic (snd (store_add s mk))"
proof -
  have "rows (snd (store_add s mk)) = rows s @ [mk (keygen s)]"
    and "keygen (snd (store_add s mk)) = Suc (keygen s)"
    by (simp_all add: store_add_def Let_def)
  with assms show ?thesis
    by (auto simp: ids_monotonic_def sorted_wrt_append intro: less_SucI)
qed

text \<open>
  Both invariants hold in a new database and survive every save made when the clock reads
  no earlier than before.
\<close>

lemma recorded_by_new: "recorded_by now createObjectStore"
  by (simp add: recorded_by_def createObjectStore_def)

lemma initDB_invariants:
  "ids_monotonic (glucose (initDB None))" "recorded_by now (glucose (initDB None))"
  "ids_monotonic (pressure (initDB None))" "recorded_by now (pressure (initDB None))"
  by (simp_all add: initDB_def ids_monotonic_new recorded_by_new)

lemma saveGlucose_invariants:
  assumes "ids_monotonic (glucose d)" and "recorded_by t (glucose d)" and "t \<le> now"
    and "saveGlucose (Some d) now v notes = Inr (k, d')"
  shows "ids_monotonic (glucose d')" and "recorded_by now (glucose d')"
    and "pressure d' = pressure d"
proof -
  define mk where "mk = (\<lambda>k. \<lparr>id_key = k, recordedAt = now, notes_txt = notes,
                              value_n = v, unit = js ''mmol/L''\<rparr>)"
  from assms(4) have d': "glucose d' = snd (store_add (glucose d) mk)"
    and p: "pressure d' = pressure d"
    by (auto simp: saveGlucose_def mk_def split: prod.splits)
  have "id_key (mk k) = k" for k
    by (simp add: mk_def)
  with assms(1) show "ids_monotonic (glucose d')"
    unfolding d' by (rule ids_monotonic_add)
  have "rows (glucose d') = rows (glucose d) @ [mk (keygen (glucose d))]"
    by (simp add: d' store_add_def Let_def)
  with assms(2,3) show "recorded_by now (glucose d')"
    by (auto simp: recorded_by_def mk_def)
  from p show "pressure d' = pressure d" .
qed

lemma savePressure_invariants:
  assumes "ids_monotonic (pressure d)" and "recorded_by t (pressure d)" and "t \<le> now"
    and "savePressure (Some d) now sys dia notes = Inr (k, d')"
  shows "ids_monotonic (pressure d')" and "recorded_by now (pressure d')"
    and "glucose d' = glucose d"
proof -
  define mk where "mk = (\<lambda>k. \<lparr>id_key = k, recordedAt = now, notes_txt = notes,
                              systolic_n = sys, diastolic_n = dia\<rparr>)"
  from assms(4) have d': "pressure d' = snd (store_add (pressure d) mk)"
    and g: "glucose d' = glucose d"
    by (auto simp: savePressure_def mk_def split: prod.splits)
  have "id_key (mk k) = k" for k
    by (simp add: mk_def)
  with assms(1) show "ids_monotonic (pressure d')"
    unfolding d' by (rule ids_monotonic_add)
  have "rows (pressure d') = rows (pressure d) @ [mk (keygen (pressure d))]"
    by (simp add: d' store_add_def Let_def)
  with assms(2,3) show "recorded_by now (pressure d')"
    by (auto simp: recorded_by_def mk_def)
  from g show "glucose d' = glucose d" .
qed

lemma recorded_by_later: "recorded_by t s \<Longrightarrow> t \<le> now \<Longrightarrow> recorded_by now s"
  by (auto simp: recorded_by_def)

lemma insort_key_last:
  assumes "\<forall>y \<in> set ys. f y \<le> f x" and "f a \<le> f x"
  shows "insort_key f a (ys @ [x]) = insort_key f a ys @ [x]"
  using assms by (induction ys) auto

lemma sort_key_last:
  assumes "\<forall>y \<in> set xs. f y \<le> f x"
  shows "sort_key f (xs @ [x]) = sort_key f xs @ [x]"
  using assms
proof (induction xs)
  case Nil
  then show ?case by simp
next
  case (Cons a xs)
  then show ?case by (simp add: insort_key_last)
qed

text \<open>
  Claim C8, as amended. In a database written by the save operations, provided no glucose
  record already stored is stamped later than the clock reads at the save, saving a
  glucose reading \<open>v\<close> and then fetching the most recent one glucose record returns
  exactly the record just saved: its value is \<open>v\<close>, whatever \<open>v\<close> is (no range is
  checked), and its unit is "mmol/L".
\<close>

theorem saveGlucose_then_getRecent:
  assumes "ids_monotonic (glucose d)"
    and "recorded_by now (glucose d)"
  shows "\<exists>k d' r. saveGlucose (Some d) now v notes = Inr (k, d')
           \<and> getRecent (Some d') glucose 1 = Inr [r]
           \<and> value_n r = v \<and> unit r = js ''mmol/L''
           \<and> id_key r = k \<and> recordedAt r = now \<and> notes_txt r = notes"
proof -
  define k where "k = keygen (glucose d)"
  define r where "r = \<lparr>id_key = k, recordedAt = now, notes_txt = notes,
                        value_n = v, unit = js ''mmol/L''\<rparr>"
  define s' where "s' = (glucose d)\<lparr>rows := rows (glucose d) @ [r], keygen := Suc k\<rparr>"
  define d' where "d' = d\<lparr>glucose := s'\<rparr>"
  have save: "saveGlucose (Some d) now v notes = Inr (k, d')"
    by (simp add: saveGlucose_def store_add_def Let_def k_def r_def s'_def d'_def)
  have "\<forall>y \<in> set (rows (glucose d)). (recordedAt y, id_key y) \<le> (recordedAt r, id_key r)"
    using assms by (auto simp: ids_monotonic_def recorded_by_def r_def k_def less_eq_prod_def)
  then have "index_recordedAt s' = index_recordedAt (glucose d) @ [r]"
    by (simp add: index_recordedAt_def s'_def sort_key_last)
  then have "getRecent (Some d') glucose 1 = Inr [r]"
    by (simp add: getRecent_take d'_def)
  moreover have "value_n r = v" "unit r = js ''mmol/L''" "id_key r = k" "recordedAt r = now"
    "notes_txt r = notes"
    by (simp_all add: r_def)
  moreover note save
  ultimately show ?thesis
    by (intro exI [of _ k] exI [of _ d'] exI [of _ r] conjI)
qed

lemma three_days_ok: "ids_monotonic (glucose three_days)" "recorded_by day4 (glucose three_days)"
  by code_simp+

theorem saveGlucose_then_getRecent_witness:
  "ids_monotonic (glucose three_days) \<and> recorded_by day4 (glucose three_days) \<and>
   (\<exists>k d' r. saveGlucose (Some three_days) day4 6.4 [] = Inr (k, d')
      \<and> getRecent (Some d') glucose 1 = Inr [r]
      \<and> value_n r = 6.4 \<and> unit r = js ''mmol/L''
      \<and> id_key r = k \<and> recordedAt r = day4 \<and> notes_txt r = [])"
  using saveGlucose_then_getRecent [of three_days day4 "6.4" "[]"] three_days_ok
  by simp

text \<open>
  Claim C8 as stated fails: \<open>getRecent\<close> orders by \<open>recordedAt\<close>, not by insertion.
  After a reading of 7.1 saved on the third day, a reading of 5.6 saved with the clock set
  back to the first day gets the id 2, and the most recent one glucose record is still the
  one of the third day, with the value 7.1.
\<close>

theorem saveGlucose_then_getRecent_counterexample:
  "saveGlucose (Some (after_saveGlucose (initDB None) day3 7.1)) day1 5.6 [] =
     Inr (2, clock_set_back)
   \<and> getRecent (Some clock_set_back) glucose 1 =
     Inr [\<lparr>id_key = 1, recordedAt = day3, notes_txt = [],
           value_n = 7.1, unit = js ''mmol/L''\<rparr>]
   \<and> (7.1::rat) \<noteq> 5.6"
proof (intro conjI)
  show "saveGlucose (Some (after_saveGlucose (initDB None) day3 7.1)) day1 (5.6::rat) [] =
     Inr (2, clock_set_back)"
    by (simp add: clock_set_back_def after_saveGlucose_def saveGlucose_def store_add_def
        initDB_def createObjectStore_def Let_def)
  show "getRecent (Some clock_set_back) glucose 1 =
     Inr [\<lparr>id_key = 1, recordedAt = day3, notes_txt = [],
           value_n = 7.1, unit = js ''mmol/L''\<rparr>]"
    by code_simp
  show "(7.1::rat) \<noteq> 5.6"
    by simp
qed

lemma sorted_index_recordedAt: "sorted (map recordedAt (index_recordedAt s))"
proof -
  have "sorted_wrt (\<lambda>a b. (recordedAt a, id_key a) \<le> (recordedAt b, id_key b)) (index_recordedAt s)"
    using sorted_index [of s] by (simp add: sorted_map)
  then have "sorted_wrt (\<lambda>a b. recordedAt a \<le> recordedAt b) (index_recordedAt s)"
    by (rule sorted_wrt_mono_rel [rotated]) (auto simp: less_eq_prod_def)
  then show ?thesis
    by (simp add: sorted_map)
qed

lemma getFilteredRecords_filter:
  "getFilteredRecords (Some d) storeName cutoff =
     Inr (filter (\<lambda>r. cutoff \<le> recordedAt r) (index_recordedAt (storeName d)))"
  by (simp add: getFilteredRecords_def getFilteredRecords_onsuccess_all openCursor_lowerBound)

text \<open>
  Claim C4. With the database open, \<open>getFilteredRecords\<close> resolves for either store and
  any cutoff, to exactly the records of the store with \<open>recordedAt >= cutoffISO\<close> (each as
  often as it is stored; a record at the cutoff is in, an older one is out), in ascending
  order of \<open>recordedAt\<close>; when nothing matches it resolves to the empty array.
\<close>

theorem getFilteredRecords_since_cutoff:
  "\<exists>rs. getFilteredRecords (Some d) storeName cutoff = Inr rs
     \<and> mset rs = filter_mset (\<lambda>r. cutoff \<le> recordedAt r) (mset (rows (storeName d)))
     \<and> (\<forall>r. r \<in> set rs \<longleftrightarrow> r \<in> set (rows (storeName d)) \<and> cutoff \<le> recordedAt r)
     \<and> sorted (map recordedAt rs)
     \<and> ((\<forall>r \<in> set (rows (storeName d)). recordedAt r < cutoff) \<longrightarrow> rs = [])"
proof -
  define rs where "rs = filter (\<lambda>r. cutoff \<le> recordedAt r) (index_recordedAt (storeName d))"
  have "mset rs = filter_mset (\<lambda>r. cutoff \<le> recordedAt r) (mset (rows (storeName d)))"
    by (simp add: rs_def mset_index)
  moreover have "\<forall>r. r \<in> set rs \<longleftrightarrow> r \<in> set (rows (storeName d)) \<and> cutoff \<le> recordedAt r"
    by (simp add: rs_def index_recordedAt_def)
  moreover have "sorted (map recordedAt rs)"
    unfolding rs_def using sorted_index_recordedAt by (rule sorted_filter)
  moreover have "(\<forall>r \<in> set (rows (storeName d)). recordedAt r < cutoff) \<longrightarrow> rs = []"
    by (auto simp: rs_def index_recordedAt_def filter_empty_conv)
  moreover have "getFilteredRecords (Some d) storeName cutoff = Inr rs"
    by (simp add: getFilteredRecords_filter rs_def)
  ultimately show ?thesis
    by (intro exI [of _ rs] conjI)
qed

theorem getFilteredRecords_since_cutoff_witness:
  "\<exists>rs. getFilteredRecords (Some three_days) glucose day2 = Inr rs
     \<and> mset rs = filter_mset (\<lambda>r. day2 \<le> recordedAt r) (mset (rows (glucose three_days)))
     \<and> (\<forall>r. r \<in> set rs \<longleftrightarrow> r \<in> set (rows (glucose three_days)) \<and> day2 \<le> recordedAt r)
     \<and> sorted (map recordedAt rs)
     \<and> ((\<forall>r \<in> set (rows (glucose three_days)). recordedAt r < day2) \<longrightarrow> rs = [])"
  using getFilteredRecords_since_cutoff [of three_days glucose day2] by simp

text \<open>
  With the cutoff at the second day: the record of the second day is in, the one of the
  first day is out. With the cutoff after every record the result is empty.
\<close>

lemma getFilteredRecords_three_days:
  "getFilteredRecords (Some three_days) glucose day2 =
     Inr [\<lparr>id_key = 2, recordedAt = day2, notes_txt = [], value_n = 6.4, unit = js ''mmol/L''\<rparr>,
          \<lparr>id_key = 3, recordedAt = day3, notes_txt = [], value_n = 7.1, unit = js ''mmol/L''\<rparr>]"
  "getFilteredRecords (Some three_days) glucose day4 = Inr []"
  by code_simp+

text \<open>What \<open>getStats\<close> resolves to: the statistics of the two filtered arrays.\<close>

lemma getStats_window:
  assumes "cutoffISO h days = Some cutoff"
  shows "getStats h (Some d) days =
     Inr \<lparr>glucose_s = glucoseStats h
                (filter (\<lambda>r. cutoff \<le> recordedAt r) (index_recordedAt (glucose d))),
          pressure_s = pressureStats h
                (filter (\<lambda>r. cutoff \<le> recordedAt r) (index_recordedAt (pressure d)))\<rparr>"
  using assms by (simp add: getStats_def getFilteredRecords_filter)

text \<open>
  The statistics of a non-empty array: the averages are the host's sum over the host's
  count, passed through \<open>toFixed(1)\<close> for glucose and \<open>Math.round\<close> for pressure; the
  minima and maxima are the host's \<open>Math.min\<close> and \<open>Math.max\<close> of the stored values.
\<close>

lemma glucoseStats_nonempty:
  assumes "glucoseRecords \<noteq> []"
  shows "glucoseStats h glucoseRecords =
     \<lparr>count_g = length glucoseRecords,
      average = Some (toFixed h (mean h (map value_n glucoseRecords)) 1),
      min_g = Some (Math_min h (map value_n glucoseRecords)),
      max_g = Some (Math_max h (map value_n glucoseRecords))\<rparr>"
  using assms by (simp add: glucoseStats_def Let_def)

lemma pressureStats_nonempty:
  assumes "pressureRecords \<noteq> []"
  shows "pressureStats h pressureRecords =
     \<lparr>count_p = length pressureRecords,
      avgSystolic = Some (Math_round h (mean h (map systolic_n pressureRecords))),
      avgDiastolic = Some (Math_round h (mean h (map diastolic_n pressureRecords))),
      minSystolic = Some (Math_min h (map systolic_n pressureRecords)),
      maxSystolic = Some (Math_max h (map systolic_n pressureRecords)),
      minDiastolic = Some (Math_min h (map diastolic_n pressureRecords)),
      maxDiastolic = Some (Math_max h (map diastolic_n pressureRecords))\<rparr>"
  using assms by (simp add: pressureStats_def Let_def)

lemma getStats_out_of_range: "cutoffISO h days = None \<Longrightarrow> getStats h db days = Inl RangeError"
  by (simp add: getStats_def)

text \<open>
  Claim C3. With the database open, \<open>getStats\<close> resolves for every \<open>days\<close> for which the
  host can write the cutoff date, and for every host arithmetic; when no glucose record is
  at or after the cutoff, the glucose statistics have count 0 and \<open>average\<close>, \<open>min\<close> and
  \<open>max\<close> are \<open>null\<close> (no Number at all, so neither \<open>NaN\<close> nor 0), and likewise the six
  pressure statistics when no pressure record is.
\<close>

theorem getStats_empty_window:
  assumes "cutoffISO h days = Some cutoff"
  shows "\<exists>st. getStats h (Some d) days = Inr st
     \<and> ((\<forall>r \<in> set (rows (glucose d)). recordedAt r < cutoff) \<longrightarrow>
          count_g (glucose_s st) = 0 \<and> average (glucose_s st) = None
          \<and> min_g (glucose_s st) = None \<and> max_g (glucose_s st) = None)
     \<and> ((\<forall>r \<in> set (rows (pressure d)). recordedAt r < cutoff) \<longrightarrow>
          count_p (pressure_s st) = 0
          \<and> avgSystolic (pressure_s st) = None \<and> avgDiastolic (pressure_s st) = None
          \<and> minSystolic (pressure_s st) = None \<and> maxSystolic (pressure_s st) = None
          \<and> minDiastolic (pressure_s st) = None \<and> maxDiastolic (pressure_s st) = None)"
proof -
  define gs where "gs = filter (\<lambda>r. cutoff \<le> recordedAt r) (index_recordedAt (glucose d))"
  define ps where "ps = filter (\<lambda>r. cutoff \<le> recordedAt r) (index_recordedAt (pressure d))"
  define st where "st = \<lparr>glucose_s = glucoseStats h gs, pressure_s = pressureStats h ps\<rparr>"
  have run: "getStats h (Some d) days = Inr st"
    by (simp add: getStats_window [OF assms] gs_def ps_def st_def)
  have g: "gs = []" if "\<forall>r \<in> set (rows (glucose d)). recordedAt r < cutoff"
    using that by (auto simp: gs_def index_recordedAt_def filter_empty_conv)
  have p: "ps = []" if "\<forall>r \<in> set (rows (pressure d)). recordedAt r < cutoff"
    using that by (auto simp: ps_def index_recordedAt_def filter_empty_conv)
  have "glucose_s st = glucoseStats h gs" and "pressure_s st = pressureStats h ps"
    by (simp_all add: st_def)
  with g p have
    "(\<forall>r \<in> set (rows (glucose d)). recordedAt r < cutoff) \<longrightarrow>
          count_g (glucose_s st) = 0 \<and> average (glucose_s st) = None
          \<and> min_g (glucose_s st) = None \<and> max_g (glucose_s st) = None"
    and
    "(\<forall>r \<in> set (rows (pressure d)). recordedAt r < cutoff) \<longrightarrow>
          count_p (pressure_s st) = 0
          \<and> avgSystolic (pressure_s st) = None \<and> avgDiastolic (pressure_s st) = None
          \<and> minSystolic (pressure_s st) = None \<and> maxSystolic (pressure_s st) = None
          \<and> minDiastolic (pressure_s st) = None \<and> maxDiastolic (pressure_s st) = None"
    by (simp_all add: glucoseStats_def pressureStats_def)
  with run show ?thesis
    by (intro exI [of _ st] conjI)
qed

lemma exact_host_today: "cutoffISO exact_host 0 = Some day4"
  by (simp add: exact_host_def)

theorem getStats_empty_window_witness:
  "cutoffISO exact_host 0 = Some day4 \<and>
   (\<exists>st. getStats exact_host (Some three_days) 0 = Inr st
     \<and> ((\<forall>r \<in> set (rows (glucose three_days)). recordedAt r < day4) \<longrightarrow>
          count_g (glucose_s st) = 0 \<and> average (glucose_s st) = None
          \<and> min_g (glucose_s st) = None \<and> max_g (glucose_s st) = None)
     \<and> ((\<forall>r \<in> set (rows (pressure three_days)). recordedAt r < day4) \<longrightarrow>
          count_p (pressure_s st) = 0
          \<and> avgSystolic (pressure_s st) = None \<and> avgDiastolic (pressure_s st) = None
          \<and> minSystolic (pressure_s st) = None \<and> maxSystolic (pressure_s st) = None
          \<and> minDiastolic (pressure_s st) = None \<and> maxDiastolic (pressure_s st) = None))"
  using getStats_empty_window [OF exact_host_today, of three_days] exact_host_today by simp

text \<open>
  With every record before the cutoff, all statistics are \<open>null\<close>. With the cutoff three
  days back every record counts; in exact arithmetic the glucose average 19.1 / 3 is
  written "6.4", and the minimum and the maximum are the stored values themselves.
\<close>

lemma getStats_three_days:
  "getStats exact_host (Some three_days) 0 =
     Inr \<lparr>glucose_s = \<lparr>count_g = 0, average = None, min_g = None, max_g = None\<rparr>,
          pressure_s = \<lparr>count_p = 0, avgSystolic = None, avgDiastolic = None,
             minSystolic = None, maxSystolic = None, minDiastolic = None, maxDiastolic = None\<rparr>\<rparr>"
  "getStats exact_host (Some three_days) 3 =
     Inr \<lparr>glucose_s = \<lparr>count_g = 3, average = Some (js ''6.4''),
                        min_g = Some 5.6, max_g = Some 7.1\<rparr>,
          pressure_s = \<lparr>count_p = 1, avgSystolic = Some 130, avgDiastolic = Some 85,
             minSystolic = Some 130, maxSystolic = Some 130,
             minDiastolic = Some 85, maxDiastolic = Some 85\<rparr>\<rparr>"
  by code_simp+


section \<open>The regular expression matcher\<close>

lemma reset_captures_endIndex [simp]: "endIndex (reset_captures ks x) = endIndex x"
  by (simp add: reset_captures_def)

lemma reset_captures_Nil [simp]: "reset_captures [] x = x"
  by (cases x) (simp add: reset_captures_def)

lemma character_matcher_cases:
  assumes "y \<in> set (character_matcher P input x)"
  obtains "endIndex x < length input" and "P (input ! endIndex x)"
    and "y = x\<lparr>endIndex := Suc (endIndex x)\<rparr>"
proof (cases "endIndex x < length input \<and> P (input ! endIndex x)")
  case True
  with assms have "y = x\<lparr>endIndex := Suc (endIndex x)\<rparr>"
    unfolding character_matcher_def by simp
  with True that show ?thesis by blast
next
  case False
  with assms have False
    unfolding character_matcher_def by simp
  then show ?thesis ..
qed

lemma character_matcherD:
  assumes "y \<in> set (character_matcher P input x)"
  shows "endIndex x < length input" and "P (input ! endIndex x)"
    and "endIndex y = Suc (endIndex x)" and "captures y = captures x"
  using assms by (auto elim!: character_matcher_cases)

lemma forwardD:
  assumes "forward input m" and "y \<in> set (m x)"
  shows "endIndex x \<le> endIndex y"
    and "endIndex x \<le> length input \<Longrightarrow> endIndex y \<le> length input"
  using assms by (auto simp: forward_def)

lemma forward_character_matcher: "forward input (character_matcher P input)"
  unfolding forward_def using character_matcherD(1,3) by fastforce

lemma forward_repeat_matcher:
  assumes "forward input m"
  shows "forward input (repeat_matcher m ks lo hi)"
  unfolding forward_def
proof (intro allI impI)
  fix x y
  assume "y \<in> set (repeat_matcher m ks lo hi x)"
  then show "endIndex x \<le> endIndex y \<and> (endIndex x \<le> length input \<longrightarrow> endIndex y \<le> length input)"
  proof (induction hi arbitrary: lo x)
    case 0
    then show ?case by simp
  next
    case (Suc hi)
    show ?case
    proof (cases "y = x")
      case True
      then show ?thesis by simp
    next
      case False
      with Suc.prems obtain z where z: "z \<in> set (m (reset_captures ks x))"
        and y: "y \<in> set (repeat_matcher m ks (lo - 1) hi z)"
        by (auto simp: Let_def split: if_splits)
      from forwardD [OF assms z] have "endIndex x \<le> endIndex z"
        and "endIndex x \<le> length input \<longrightarrow> endIndex z \<le> length input"
        by simp_all
      with Suc.IH [OF y] show ?thesis by auto
    qed
  qed
qed

lemma forward_matcher: "forward input (matcher r input)"
proof (induction r)
  case (Char c)
  have "matcher (Char c) input = character_matcher (\<lambda>a. a = c) input"
    by (rule ext) simp
  then show ?case by (simp add: forward_character_matcher)
next
  case (CharClass invert atoms)
  have "matcher (CharClass invert atoms) input = character_matcher (class_matches invert atoms) input"
    by (rule ext) simp
  then show ?case by (simp add: forward_character_matcher)
next
  case (Seq r1 r2)
  then show ?case
    unfolding forward_def by (simp, meson order_trans)
next
  case (Quantified r lo hi)
  show ?case
    unfolding forward_def
  proof (intro allI impI)
    fix x y
    assume "y \<in> set (matcher (Quantified r lo hi) input x)"
    then obtain n where "y \<in> set (repeat_matcher (matcher r input) (groups_of r) lo n x)"
      by simp
    with forward_repeat_matcher [OF Quantified.IH, of "groups_of r" lo n]
    show "endIndex x \<le> endIndex y \<and> (endIndex x \<le> length input \<longrightarrow> endIndex y \<le> length input)"
      by (simp add: forward_def)
  qed
next
  case (Group k r)
  then show ?case
    unfolding forward_def by auto
qed










lemma matcher_CharD:
  assumes "y \<in> set (matcher (Char c) input x)"
  shows "endIndex x < length input" and "input ! endIndex x = c"
    and "endIndex y = Suc (endIndex x)" and "captures y = captures x"
  using assms character_matcherD [of y "\<lambda>a. a = c" input x] by simp_all








lemma regexp_exec_from_None:
  assumes "regexp_exec_from r input k = None"
  shows "\<forall>j. k \<le> j \<and> j \<le> length input \<longrightarrow> matcher r input (start_at j) = []"
  using assms
proof (induction r input k rule: regexp_exec_from.induct)
  case (1 r input lastIndex)
  show ?case
  proof (cases "length input < lastIndex")
    case True
    then show ?thesis by auto
  next
    case False
    with "1.prems" have Nil: "matcher r input (start_at lastIndex) = []"
      by (cases "matcher r input (start_at lastIndex)") simp_all
    with "1.prems" False have "regexp_exec_from r input (Suc lastIndex) = None"
      by simp
    note ih = "1.IH" [OF False Nil this]
    show ?thesis
    proof (intro allI impI)
      fix j
      assume j: "lastIndex \<le> j \<and> j \<le> length input"
      show "matcher r input (start_at j) = []"
      proof (cases "j = lastIndex")
        case True
        with Nil show ?thesis by simp
      next
        case False
        with j have "Suc lastIndex \<le> j \<and> j \<le> length input" by arith
        with ih show ?thesis by blast
      qed
    qed
  qed
qed

text \<open>
  The bound that \<open>matcher\<close> gives a quantifier without upper bound is never reached:
  every larger bound gives the same matches.
\<close>

lemma repeat_matcher_bound:
  assumes "forward input m"
    and "endIndex x \<le> length input"
    and "lo + (length input - endIndex x) \<le> hi"
  shows "repeat_matcher m ks lo hi x =
         repeat_matcher m ks lo (lo + (length input - endIndex x)) x"
  using assms(2,3)
proof (induction hi arbitrary: lo x rule: less_induct)
  case (less hi)
  define B where "B = lo + (length input - endIndex x)"
  show ?case
  proof (cases "B = hi")
    case True
    then show ?thesis by (simp add: B_def)
  next
    case False
    with less.prems obtain h where hi: "hi = Suc h" and Bh: "B \<le> h"
      by (cases hi) (auto simp: B_def)
    have fwd: "endIndex x \<le> endIndex y \<and> endIndex y \<le> length input"
      if "y \<in> set (m (reset_captures ks x))" for y
      using forwardD [OF assms(1) that] less.prems(1) by simp
    show ?thesis
    proof (cases B)
      case 0
      then have lo: "lo = 0" and ex: "endIndex x = length input"
        using less.prems(1) by (auto simp: B_def)
      have "(if lo = 0 \<and> endIndex y = endIndex x then []
             else repeat_matcher m ks (lo - 1) h y) = []"
        if "y \<in> set (m (reset_captures ks x))" for y
        using fwd [OF that] lo ex by simp
      then have "concat (map (\<lambda>y. if lo = 0 \<and> endIndex y = endIndex x then []
             else repeat_matcher m ks (lo - 1) h y) (m (reset_captures ks x))) = []"
        by simp
      with lo ex show ?thesis
        by (simp add: hi Let_def)
    next
      case (Suc B')
      have inner: "(if lo = 0 \<and> endIndex y = endIndex x then []
             else repeat_matcher m ks (lo - 1) h y)
          = (if lo = 0 \<and> endIndex y = endIndex x then []
             else repeat_matcher m ks (lo - 1) B' y)"
        if y: "y \<in> set (m (reset_captures ks x))" for y
      proof (cases "lo = 0 \<and> endIndex y = endIndex x")
        case True
        then show ?thesis by simp
      next
        case False
        from fwd [OF y] have ey: "endIndex y \<le> length input" and xy: "endIndex x \<le> endIndex y"
          by simp_all
        from False xy Suc have small: "(lo - 1) + (length input - endIndex y) \<le> B'"
          unfolding B_def using ey less.prems(1) by (cases "lo = 0") auto
        have "repeat_matcher m ks (lo - 1) h y
            = repeat_matcher m ks (lo - 1) ((lo - 1) + (length input - endIndex y)) y"
          using small Bh Suc by (intro less.IH) (simp_all add: hi ey)
        moreover have "repeat_matcher m ks (lo - 1) B' y
            = repeat_matcher m ks (lo - 1) ((lo - 1) + (length input - endIndex y)) y"
          using small Bh Suc by (intro less.IH) (simp_all add: hi ey)
        ultimately show ?thesis by simp
      qed
      have "map (\<lambda>y. if lo = 0 \<and> endIndex y = endIndex x then []
                       else repeat_matcher m ks (lo - 1) h y) (m (reset_captures ks x))
          = map (\<lambda>y. if lo = 0 \<and> endIndex y = endIndex x then []
                       else repeat_matcher m ks (lo - 1) B' y) (m (reset_captures ks x))"
        by (rule map_cong [OF refl inner])
      then have "repeat_matcher m ks lo (Suc h) x = repeat_matcher m ks lo (Suc B') x"
        by (simp only: repeat_matcher.simps Let_def)
      with Suc show ?thesis
        by (simp add: hi B_def)
    qed
  qed
qed

lemma matcher_unbounded:
  assumes "endIndex x \<le> length input" and "lo + (length input - endIndex x) \<le> hi"
  shows "matcher (Quantified r lo None) input x = matcher (Quantified r lo (Some hi)) input x"
  using repeat_matcher_bound [OF forward_matcher assms, of r "groups_of r"] by simp


section \<open>The text extractor: what parseHealthText reports\<close>

lemma parseHealthText_bloodSugar:
  "bloodSugar (parseHealthText pf text) =
     map_option (\<lambda>m. pf (m 1)) (string_match text sugar_pattern)"
  by (simp add: parseHealthText_def Let_def split: option.splits)

lemma parseHealthText_systolic:
  "systolic (parseHealthText pf text) =
     (case string_match text bp_pattern of
        None \<Rightarrow> None
      | Some m \<Rightarrow>
          if num_ge (parseInt (m 1)) 60 \<and> num_le (parseInt (m 1)) 250
             \<and> num_ge (parseInt (m 2)) 40 \<and> num_le (parseInt (m 2)) 150
          then Some (parseInt (m 1)) else None)"
  by (simp add: parseHealthText_def Let_def split: option.splits)

lemma parseHealthText_diastolic:
  "diastolic (parseHealthText pf text) =
     (case string_match text bp_pattern of
        None \<Rightarrow> None
      | Some m \<Rightarrow>
          if num_ge (parseInt (m 1)) 60 \<and> num_le (parseInt (m 1)) 250
             \<and> num_ge (parseInt (m 2)) 40 \<and> num_le (parseInt (m 2)) 150
          then Some (parseInt (m 2)) else None)"
  by (simp add: parseHealthText_def Let_def split: option.splits)

lemma parsed_eqI:
  fixes r :: "'n parsed"
  assumes "bloodSugar r = g" and "systolic r = s" and "diastolic r = d"
  shows "r = \<lparr>bloodSugar = g, systolic = s, diastolic = d\<rparr>"
  using assms by (cases r) simp



text \<open>The captures of the first match in the texts of the examples.\<close>

lemma captures_300_90:
  "map_option (\<lambda>m. (m 1, m 2)) (string_match text_bp_300_90 bp_pattern)
     = Some (Some (js ''300''), Some (js ''90''))"
  "map_option (\<lambda>m. m 1) (string_match text_bp_300_90 sugar_pattern) = None"
  by code_simp+

lemma captures_130_85:
  "map_option (\<lambda>m. (m 1, m 2)) (string_match text_bp_130_85 bp_pattern)
     = Some (Some (js ''130''), Some (js ''85''))"
  "map_option (\<lambda>m. m 1) (string_match text_bp_130_85 sugar_pattern) = None"
  by code_simp+

lemma captures_sugar_and_bp:
  "map_option (\<lambda>m. (m 1, m 2)) (string_match text_sugar_and_bp bp_pattern)
     = Some (Some (js ''130''), Some (js ''85''))"
  "map_option (\<lambda>m. m 1) (string_match text_sugar_and_bp sugar_pattern) = Some (Some (js ''6.4''))"
  by code_simp+

lemma captures_sugar_bp_rejected:
  "map_option (\<lambda>m. (m 1, m 2)) (string_match text_sugar_bp_rejected bp_pattern)
     = Some (Some (js ''300''), Some (js ''90''))"
  "map_option (\<lambda>m. m 1) (string_match text_sugar_bp_rejected sugar_pattern)
     = Some (Some (js ''6.4''))"
  by code_simp+

lemma captures_bp_twice:
  "map_option (\<lambda>m. (m 1, m 2)) (string_match text_bp_twice bp_pattern)
     = Some (Some (js ''300''), Some (js ''90''))"
  "map_option (\<lambda>m. m 1) (string_match text_bp_twice sugar_pattern) = None"
  "map_option (\<lambda>m. (m 1, m 2)) (string_match (drop 9 text_bp_twice) bp_pattern)
     = Some (Some (js ''130''), Some (js ''85''))"
  "map_option (\<lambda>m. m 1) (string_match (drop 9 text_bp_twice) sugar_pattern) = None"
  by code_simp+

lemma parseInt_examples:
  "parseInt (Some (js ''300'')) = Finite 300"
  "parseInt (Some (js ''90'')) = Finite 90"
  "parseInt (Some (js ''130'')) = Finite 130"
  "parseInt (Some (js ''85'')) = Finite 85"
  by code_simp+

lemma exact_parseFloat_example: "exact_parseFloat (Some (js ''6.4'')) = 6.4"
  by code_simp

text \<open>The result of \<open>parseHealthText\<close> from the first captures of the two matches.\<close>

lemma parseHealthText_from_captures:
  assumes "map_option (\<lambda>m. m 1) (string_match text sugar_pattern) = g"
    and "map_option (\<lambda>m. (m 1, m 2)) (string_match text bp_pattern) = p"
  shows "parseHealthText pf text =
     \<lparr>bloodSugar = map_option pf g,
      systolic = (case p of None \<Rightarrow> None
                  | Some (a, b) \<Rightarrow>
                      if num_ge (parseInt a) 60 \<and> num_le (parseInt a) 250
                         \<and> num_ge (parseInt b) 40 \<and> num_le (parseInt b) 150
                      then Some (parseInt a) else None),
      diastolic = (case p of None \<Rightarrow> None
                  | Some (a, b) \<Rightarrow>
                      if num_ge (parseInt a) 60 \<and> num_le (parseInt a) 250
                         \<and> num_ge (parseInt b) 40 \<and> num_le (parseInt b) 150
                      then Some (parseInt b) else None)\<rparr>"
proof (rule parsed_eqI)
  show "bloodSugar (parseHealthText pf text) = map_option pf g"
    using assms(1) by (cases "string_match text sugar_pattern") (auto simp: parseHealthText_bloodSugar)
  show "systolic (parseHealthText pf text) = (case p of None \<Rightarrow> None
                  | Some (a, b) \<Rightarrow>
                      if num_ge (parseInt a) 60 \<and> num_le (parseInt a) 250
                         \<and> num_ge (parseInt b) 40 \<and> num_le (parseInt b) 150
                      then Some (parseInt a) else None)"
    using assms(2) by (cases "string_match text bp_pattern") (auto simp: parseHealthText_systolic)
  show "diastolic (parseHealthText pf text) = (case p of None \<Rightarrow> None
                  | Some (a, b) \<Rightarrow>
                      if num_ge (parseInt a) 60 \<and> num_le (parseInt a) 250
                         \<and> num_ge (parseInt b) 40 \<and> num_le (parseInt b) 150
                      then Some (parseInt b) else None)"
    using assms(2) by (cases "string_match text bp_pattern") (auto simp: parseHealthText_diastolic)
qed

lemma parse_bp_300_90:
  "parseHealthText pf text_bp_300_90 = \<lparr>bloodSugar = None, systolic = None, diastolic = None\<rparr>"
  by (simp add: parseHealthText_from_captures [OF captures_300_90(2) captures_300_90(1)]
      parseInt_examples)

lemma parse_bp_130_85:
  "parseHealthText pf text_bp_130_85 =
     \<lparr>bloodSugar = None, systolic = Some (Finite 130), diastolic = Some (Finite 85)\<rparr>"
  by (simp add: parseHealthText_from_captures [OF captures_130_85(2) captures_130_85(1)]
      parseInt_examples)

lemma parse_sugar_and_bp:
  "parseHealthText pf text_sugar_and_bp =
     \<lparr>bloodSugar = Some (pf (Some (js ''6.4''))),
      systolic = Some (Finite 130), diastolic = Some (Finite 85)\<rparr>"
  by (simp add: parseHealthText_from_captures [OF captures_sugar_and_bp(2) captures_sugar_and_bp(1)]
      parseInt_examples)

lemma parse_sugar_bp_rejected:
  "parseHealthText pf text_sugar_bp_rejected =
     \<lparr>bloodSugar = Some (pf (Some (js ''6.4''))), systolic = None, diastolic = None\<rparr>"
  by (simp add: parseHealthText_from_captures
        [OF captures_sugar_bp_rejected(2) captures_sugar_bp_rejected(1)]
      parseInt_examples)

lemma parse_bp_twice:
  "parseHealthText pf text_bp_twice = \<lparr>bloodSugar = None, systolic = None, diastolic = None\<rparr>"
  "parseHealthText pf (drop 9 text_bp_twice) =
     \<lparr>bloodSugar = None, systolic = Some (Finite 130), diastolic = Some (Finite 85)\<rparr>"
  by (simp_all add: parseHealthText_from_captures [OF captures_bp_twice(2) captures_bp_twice(1)]
      parseHealthText_from_captures [OF captures_bp_twice(4) captures_bp_twice(3)]
      parseInt_examples)

text \<open>Conversely, the first index with a match is where \<open>regexp_exec_from\<close> stops.\<close>

lemma regexp_exec_from_first:
  assumes "k \<le> i" and "i \<le> length input"
    and "\<forall>j. k \<le> j \<and> j < i \<longrightarrow> matcher r input (start_at j) = []"
    and "matcher r input (start_at i) = y # ys"
  shows "regexp_exec_from r input k =
           Some (i, (captures y)(0 \<mapsto> substring input i (endIndex y)))"
  using assms(1,3)
proof (induction "i - k" arbitrary: k)
  case 0
  then have "k = i" by simp
  with assms(2,4) show ?case
    by (subst regexp_exec_from.simps) simp
next
  case (Suc n)
  then have "k < i" and "n = i - Suc k" and "Suc k \<le> i" by simp_all
  with Suc.prems have nil: "matcher r input (start_at k) = []"
    and rest: "\<forall>j. Suc k \<le> j \<and> j < i \<longrightarrow> matcher r input (start_at j) = []"
    by auto
  from Suc.hyps(1) [OF \<open>n = i - Suc k\<close> \<open>Suc k \<le> i\<close> rest]
  have "regexp_exec_from r input (Suc k) =
           Some (i, (captures y)(0 \<mapsto> substring input i (endIndex y)))" .
  with nil \<open>k < i\<close> assms(2) show ?case
    by (subst regexp_exec_from.simps) simp
qed

text \<open>
  Claim C9. For every input text (and every host \<open>parseFloat\<close>), the result of
  \<open>parseHealthText\<close> has a \<open>systolic\<close> property if and only if it has a \<open>diastolic\<close>
  property.
\<close>

theorem parseHealthText_systolic_iff_diastolic:
  "(systolic (parseHealthText pf text) = None) = (diastolic (parseHealthText pf text) = None)"
proof (cases "string_match text bp_pattern")
  case None
  then show ?thesis
    by (simp add: parseHealthText_systolic parseHealthText_diastolic)
next
  case (Some m)
  show ?thesis
  proof (cases "num_ge (parseInt (m 1)) 60 \<and> num_le (parseInt (m 1)) 250
      \<and> num_ge (parseInt (m 2)) 40 \<and> num_le (parseInt (m 2)) 150")
    case True
    with Some have "systolic (parseHealthText pf text) = Some (parseInt (m 1))"
      and "diastolic (parseHealthText pf text) = Some (parseInt (m 2))"
      by (simp_all add: parseHealthText_systolic parseHealthText_diastolic)
    then show ?thesis by simp
  next
    case False
    with Some have "systolic (parseHealthText pf text) = None"
      and "diastolic (parseHealthText pf text) = None"
      by (simp_all add: parseHealthText_systolic parseHealthText_diastolic)
    then show ?thesis by simp
  qed
qed

theorem parseHealthText_systolic_iff_diastolic_witness:
  "systolic (parseHealthText exact_parseFloat text_bp_130_85) \<noteq> None
   \<and> diastolic (parseHealthText exact_parseFloat text_bp_130_85) \<noteq> None
   \<and> systolic (parseHealthText exact_parseFloat text_bp_300_90) = None
   \<and> diastolic (parseHealthText exact_parseFloat text_bp_300_90) = None"
  using parseHealthText_systolic_iff_diastolic [of exact_parseFloat text_bp_130_85]
    parseHealthText_systolic_iff_diastolic [of exact_parseFloat text_bp_300_90]
  by (simp add: parse_bp_130_85 parse_bp_300_90)



text \<open>
  Claim C10. For every input text: if \<open>i\<close> is the first index at which the pressure
  pattern matches, and the integers that match captures are outside the bounds, then the
  result has no pressure reading, whatever follows in the text. The text U+8840 U+538B
  "300 90" U+FF0C U+8840 U+538B "130 85" yields no pressure reading, although what starts
  at its second keyword (index 9) parses, on its own, to the reading 130 over 85.
\<close>

theorem parseHealthText_first_occurrence_only:
  "(\<forall>i y ys s d.
       i \<le> length text
       \<and> (\<forall>j<i. matcher bp_pattern text (start_at j) = [])
       \<and> matcher bp_pattern text (start_at i) = y # ys
       \<and> parseInt (captures y 1) = Finite s \<and> parseInt (captures y 2) = Finite d
       \<and> \<not> (60 \<le> s \<and> s \<le> 250 \<and> 40 \<le> d \<and> d \<le> 150)
       \<longrightarrow> systolic (parseHealthText pf text) = None
         \<and> diastolic (parseHealthText pf text) = None)
   \<and> parseHealthText pf text_bp_twice =
        \<lparr>bloodSugar = None, systolic = None, diastolic = None\<rparr>
   \<and> parseHealthText pf (drop 9 text_bp_twice) =
        \<lparr>bloodSugar = None, systolic = Some (Finite 130), diastolic = Some (Finite 85)\<rparr>"
proof (intro conjI allI impI)
  fix i y ys s d
  assume a: "i \<le> length text
       \<and> (\<forall>j<i. matcher bp_pattern text (start_at j) = [])
       \<and> matcher bp_pattern text (start_at i) = y # ys
       \<and> parseInt (captures y 1) = Finite s \<and> parseInt (captures y 2) = Finite d
       \<and> \<not> (60 \<le> s \<and> s \<le> 250 \<and> 40 \<le> d \<and> d \<le> 150)"
  then have "regexp_exec_from bp_pattern text 0 =
      Some (i, (captures y)(0 \<mapsto> substring text i (endIndex y)))"
    by (intro regexp_exec_from_first) auto
  then have m: "string_match text bp_pattern =
      Some ((captures y)(0 \<mapsto> substring text i (endIndex y)))"
    by (simp add: string_match_def)
  from a show "systolic (parseHealthText pf text) = None"
    and "diastolic (parseHealthText pf text) = None"
    by (auto simp: parseHealthText_systolic parseHealthText_diastolic m)
next
  show "parseHealthText pf text_bp_twice =
        \<lparr>bloodSugar = None, systolic = None, diastolic = None\<rparr>"
    by (rule parse_bp_twice)
  show "parseHealthText pf (drop 9 text_bp_twice) =
        \<lparr>bloodSugar = None, systolic = Some (Finite 130), diastolic = Some (Finite 85)\<rparr>"
    by (rule parse_bp_twice)
qed

text \<open>The first occurrence in the text with two readings: at index 0, 300 over 90.\<close>

lemma first_occurrence_bp_twice:
  "map (\<lambda>y. (captures y 1, captures y 2)) (matcher bp_pattern text_bp_twice (start_at 0))
     = [(Some (js ''300''), Some (js ''90''))]"
  by code_simp

theorem parseHealthText_first_occurrence_only_witness:
  "0 \<le> length text_bp_twice
   \<and> (\<exists>y ys. matcher bp_pattern text_bp_twice (start_at 0) = y # ys
        \<and> parseInt (captures y 1) = Finite 300 \<and> parseInt (captures y 2) = Finite 90)
   \<and> \<not> (60 \<le> (300::int) \<and> (300::int) \<le> 250 \<and> 40 \<le> (90::int) \<and> (90::int) \<le> 150)
   \<and> systolic (parseHealthText exact_parseFloat text_bp_twice) = None
   \<and> diastolic (parseHealthText exact_parseFloat text_bp_twice) = None"
proof -
  from first_occurrence_bp_twice obtain y ys where
    y: "matcher bp_pattern text_bp_twice (start_at 0) = y # ys"
    and caps: "captures y 1 = Some (js ''300'')" "captures y 2 = Some (js ''90'')"
    by (cases "matcher bp_pattern text_bp_twice (start_at 0)") auto
  have p: "parseInt (captures y 1) = Finite 300" "parseInt (captures y 2) = Finite 90"
    using caps by (simp_all add: parseInt_examples)
  have "0 \<le> length text_bp_twice
       \<and> (\<forall>j<0. matcher bp_pattern text_bp_twice (start_at j) = [])
       \<and> matcher bp_pattern text_bp_twice (start_at 0) = y # ys
       \<and> parseInt (captures y 1) = Finite 300 \<and> parseInt (captures y 2) = Finite 90
       \<and> \<not> (60 \<le> (300::int) \<and> (300::int) \<le> 250 \<and> 40 \<le> (90::int) \<and> (90::int) \<le> 150)"
    using y p by simp
  with parseHealthText_first_occurrence_only [of text_bp_twice exact_parseFloat]
  have "systolic (parseHealthText exact_parseFloat text_bp_twice) = None
      \<and> diastolic (parseHealthText exact_parseFloat text_bp_twice) = None"
    by blast
  with y p show ?thesis by simp
qed

text \<open>
  Claim C5. For every input text, what \<open>parseHealthText\<close> reports as glucose is decided
  by the match of the glucose pattern alone, and what it reports as pressure by the match
  of the pressure pattern (and its bounds check) alone: no outcome of one scan blocks the
  other. Parsing U+8840 U+7CD6 "6.4" U+FF0C U+8840 U+538B "130 85" yields the glucose value
  the host reads from "6.4" and the pressure pair (130, 85); with "300 90" in place of
  "130 85" the glucose value is still reported; and a text with the pressure reading only
  yields the pressure pair and no glucose.
\<close>

theorem parseHealthText_independent_patterns:
  "bloodSugar (parseHealthText pf text) =
     (case string_match text sugar_pattern of
        None \<Rightarrow> None
      | Some m \<Rightarrow> Some (pf (m 1)))
   \<and> (systolic (parseHealthText pf text), diastolic (parseHealthText pf text)) =
     (case string_match text bp_pattern of
        None \<Rightarrow> (None, None)
      | Some m \<Rightarrow>
          if num_ge (parseInt (m 1)) 60 \<and> num_le (parseInt (m 1)) 250
             \<and> num_ge (parseInt (m 2)) 40 \<and> num_le (parseInt (m 2)) 150
          then (Some (parseInt (m 1)), Some (parseInt (m 2)))
          else (None, None))
   \<and> parseHealthText pf text_sugar_and_bp =
        \<lparr>bloodSugar = Some (pf (Some (js ''6.4''))),
         systolic = Some (Finite 130), diastolic = Some (Finite 85)\<rparr>
   \<and> parseHealthText pf text_sugar_bp_rejected =
        \<lparr>bloodSugar = Some (pf (Some (js ''6.4''))), systolic = None, diastolic = None\<rparr>
   \<and> parseHealthText pf text_bp_130_85 =
        \<lparr>bloodSugar = None, systolic = Some (Finite 130), diastolic = Some (Finite 85)\<rparr>"
proof (intro conjI)
  show "bloodSugar (parseHealthText pf text) =
     (case string_match text sugar_pattern of
        None \<Rightarrow> None
      | Some m \<Rightarrow> Some (pf (m 1)))"
    by (cases "string_match text sugar_pattern") (simp_all add: parseHealthText_bloodSugar)
  show "(systolic (parseHealthText pf text), diastolic (parseHealthText pf text)) =
     (case string_match text bp_pattern of
        None \<Rightarrow> (None, None)
      | Some m \<Rightarrow>
          if num_ge (parseInt (m 1)) 60 \<and> num_le (parseInt (m 1)) 250
             \<and> num_ge (parseInt (m 2)) 40 \<and> num_le (parseInt (m 2)) 150
          then (Some (parseInt (m 1)), Some (parseInt (m 2)))
          else (None, None))"
    by (cases "string_match text bp_pattern")
      (simp_all add: parseHealthText_systolic parseHealthText_diastolic)
  show "parseHealthText pf text_sugar_and_bp =
        \<lparr>bloodSugar = Some (pf (Some (js ''6.4''))),
         systolic = Some (Finite 130), diastolic = Some (Finite 85)\<rparr>"
    by (rule parse_sugar_and_bp)
  show "parseHealthText pf text_sugar_bp_rejected =
        \<lparr>bloodSugar = Some (pf (Some (js ''6.4''))), systolic = None, diastolic = None\<rparr>"
    by (rule parse_sugar_bp_rejected)
  show "parseHealthText pf text_bp_130_85 =
        \<lparr>bloodSugar = None, systolic = Some (Finite 130), diastolic = Some (Finite 85)\<rparr>"
    by (rule parse_bp_130_85)
qed

theorem parseHealthText_independent_patterns_witness:
  "parseHealthText exact_parseFloat text_sugar_and_bp =
     \<lparr>bloodSugar = Some 6.4, systolic = Some (Finite 130), diastolic = Some (Finite 85)\<rparr>
   \<and> parseHealthText exact_parseFloat text_sugar_bp_rejected =
     \<lparr>bloodSugar = Some 6.4, systolic = None, diastolic = None\<rparr>"
  using parseHealthText_independent_patterns [of exact_parseFloat text_sugar_and_bp]
  by (simp add: exact_parseFloat_example)

end
